theory Spec2Isabelle
  imports Complex_Main "HOL-Library.Sublist" "HOL-Library.Multiset"
begin

section \<open>JavaScript values\<close>

text \<open>
  The query engine of \<^verbatim>\<open>backend/server.js\<close> works on records parsed from JSON. The
  values met in a record or a filter are modelled by \<open>jsval\<close>: undefined, null,
  booleans, numbers and strings (the fields of an \<^verbatim>\<open>Employee\<close> are numbers and strings),
  and \<open>JObject\<close> for an object or a function, such as the ones every record inherits
  from \<^verbatim>\<open>Object.prototype\<close>; it is given by the string that its \<^verbatim>\<open>toString\<close> returns. A
  JavaScript number is an IEEE double: \<open>NaN\<close>, the two infinities, or a finite value,
  kept here as the rational it denotes (the sign of zero plays no part in any
  comparison below).
\<close>

datatype number = NaN | Fin rat | PosInf | NegInf

datatype jsval = JUndefined | JNull | JBool bool | JNum number | JStr string | JObject string

text \<open>The relational operators \<^verbatim>\<open><\<close> and \<^verbatim>\<open><=\<close> on numbers: false as soon as one side is NaN.\<close>

fun num_less :: "number \<Rightarrow> number \<Rightarrow> bool" where
  "num_less NaN _ = False"
| "num_less _ NaN = False"
| "num_less (Fin a) (Fin b) = (a < b)"
| "num_less (Fin a) PosInf = True"
| "num_less (Fin a) NegInf = False"
| "num_less PosInf _ = False"
| "num_less NegInf NegInf = False"
| "num_less NegInf _ = True"

fun num_le :: "number \<Rightarrow> number \<Rightarrow> bool" where
  "num_le NaN _ = False"
| "num_le _ NaN = False"
| "num_le a b = (a = b \<or> num_less a b)"

text \<open>
  Subtraction and unary minus. The difference of two finite doubles is rounded, but its
  sign is the sign of the exact difference, and the sort reads nothing but that sign.
\<close>

fun num_sub :: "number \<Rightarrow> number \<Rightarrow> number" where
  "num_sub NaN _ = NaN"
| "num_sub _ NaN = NaN"
| "num_sub (Fin a) (Fin b) = Fin (a - b)"
| "num_sub (Fin a) PosInf = NegInf"
| "num_sub (Fin a) NegInf = PosInf"
| "num_sub PosInf PosInf = NaN"
| "num_sub PosInf _ = PosInf"
| "num_sub NegInf NegInf = NaN"
| "num_sub NegInf _ = NegInf"

fun num_neg :: "number \<Rightarrow> number" where
  "num_neg NaN = NaN"
| "num_neg (Fin a) = Fin (- a)"
| "num_neg PosInf = NegInf"
| "num_neg NegInf = PosInf"

text \<open>
  The library functions of the JavaScript runtime that the engine calls and whose
  results depend on Unicode tables, the host locale or the number grammar are
  parameters of the model: every theorem below holds for each implementation of them.
\<close>

record runtime =
  toLowerCase :: "string \<Rightarrow> string"
  localeCompare :: "string \<Rightarrow> string \<Rightarrow> int"
  numberToString :: "number \<Rightarrow> string"
  stringToNumber :: "string \<Rightarrow> number"

text \<open>
  The conversions \<^verbatim>\<open>String(v)\<close> and \<^verbatim>\<open>Number(v)\<close>. An object or function is first
  converted to a primitive: its \<^verbatim>\<open>valueOf\<close> returns the object itself, so the string of
  its \<^verbatim>\<open>toString\<close> is taken, and \<^verbatim>\<open>Number\<close> reads that string.
\<close>

fun String_js :: "runtime \<Rightarrow> jsval \<Rightarrow> string" where
  "String_js rt JUndefined = ''undefined''"
| "String_js rt JNull = ''null''"
| "String_js rt (JBool b) = (if b then ''true'' else ''false'')"
| "String_js rt (JNum n) = numberToString rt n"
| "String_js rt (JStr s) = s"
| "String_js rt (JObject s) = s"

fun Number_js :: "runtime \<Rightarrow> jsval \<Rightarrow> number" where
  "Number_js rt JUndefined = NaN"
| "Number_js rt JNull = Fin 0"
| "Number_js rt (JBool b) = (if b then Fin 1 else Fin 0)"
| "Number_js rt (JNum n) = n"
| "Number_js rt (JStr s) = stringToNumber rt s"
| "Number_js rt (JObject s) = stringToNumber rt s"

section \<open>Records and filters\<close>

text \<open>
  A record is an object made by \<^verbatim>\<open>JSON.parse\<close>: a map from its own keys to values, with
  \<^verbatim>\<open>Object.prototype\<close> as its prototype. The properties of \<^verbatim>\<open>Object.prototype\<close> are those of
  ECMAScript (with its annex B); all are functions but \<^verbatim>\<open>__proto__\<close>, whose getter returns
  the prototype itself. Their string forms are the ones Node.js prints.
\<close>

type_synonym employee = "string \<rightharpoonup> jsval"

definition objectPrototype :: "string \<rightharpoonup> jsval" where
  "objectPrototype = map_of
     [(''constructor'', JObject ''function Object() { [native code] }''),
      (''__proto__'', JObject ''[object Object]''),
      (''toString'', JObject ''function toString() { [native code] }''),
      (''toLocaleString'', JObject ''function toLocaleString() { [native code] }''),
      (''valueOf'', JObject ''function valueOf() { [native code] }''),
      (''hasOwnProperty'', JObject ''function hasOwnProperty() { [native code] }''),
      (''isPrototypeOf'', JObject ''function isPrototypeOf() { [native code] }''),
      (''propertyIsEnumerable'', JObject ''function propertyIsEnumerable() { [native code] }''),
      (''__defineGetter__'', JObject ''function __defineGetter__() { [native code] }''),
      (''__defineSetter__'', JObject ''function __defineSetter__() { [native code] }''),
      (''__lookupGetter__'', JObject ''function __lookupGetter__() { [native code] }''),
      (''__lookupSetter__'', JObject ''function __lookupSetter__() { [native code] }'')]"

text \<open>
  \<^verbatim>\<open>record[name]\<close>: the record's own value under the name if it has one, else the
  value inherited from the prototype, else \<^verbatim>\<open>undefined\<close>.
\<close>

definition getProp :: "employee \<Rightarrow> string \<Rightarrow> jsval" where
  "getProp r k =
     (case r k of
        Some v \<Rightarrow> v
      | None \<Rightarrow> (case objectPrototype k of Some v \<Rightarrow> v | None \<Rightarrow> JUndefined))"

record Filter =
  field :: string
  operator :: string
  filterValue :: jsval

text \<open>
  The arrow function that \<^verbatim>\<open>applyFilters\<close> maps over the filters: the result of one
  condition on one record. The \<^verbatim>\<open>switch\<close> on the operator is the chain of tests, in
  the order of its cases, with \<^verbatim>\<open>default: return false\<close> last.
\<close>

definition evalCondition :: "runtime \<Rightarrow> employee \<Rightarrow> Filter \<Rightarrow> bool" where
  "evalCondition rt r f =
     (let v = getProp r (field f);
          fv = filterValue f
      in if v = JUndefined \<or> v = JNull then False
         else if operator f = ''equals'' then
           toLowerCase rt (String_js rt v) = toLowerCase rt (String_js rt fv)
         else if operator f = ''contains'' then
           sublist (toLowerCase rt (String_js rt fv)) (toLowerCase rt (String_js rt v))
         else if operator f = ''>'' then num_less (Number_js rt fv) (Number_js rt v)
         else if operator f = ''<'' then num_less (Number_js rt v) (Number_js rt fv)
         else if operator f = ''>='' then num_le (Number_js rt fv) (Number_js rt v)
         else if operator f = ''<='' then num_le (Number_js rt v) (Number_js rt fv)
         else if operator f = ''startsWith'' then
           prefix (toLowerCase rt (String_js rt fv)) (toLowerCase rt (String_js rt v))
         else if operator f = ''endsWith'' then
           suffix (toLowerCase rt (String_js rt fv)) (toLowerCase rt (String_js rt v))
         else False)"

text \<open>
  The predicate that \<^verbatim>\<open>applyFilters\<close> passes to \<^verbatim>\<open>data.filter\<close>: all conditions are
  evaluated, then reduced with \<^verbatim>\<open>some\<close> when the logic is the string \<^verbatim>\<open>OR\<close> and with
  \<^verbatim>\<open>every\<close> otherwise.
\<close>

definition matches :: "runtime \<Rightarrow> Filter list \<Rightarrow> string \<Rightarrow> employee \<Rightarrow> bool" where
  "matches rt filters logic r =
     (let results = map (evalCondition rt r) filters
      in if logic = ''OR'' then list_ex (\<lambda>b. b) results else list_all (\<lambda>b. b) results)"

text \<open>
  \<^verbatim>\<open>applyFilters(data, filters, logic)\<close>. The filters are an array, so the test
  \<^verbatim>\<open>!filters || filters.length === 0\<close> is the test for the empty array.
\<close>

definition applyFilters :: "runtime \<Rightarrow> employee list \<Rightarrow> Filter list \<Rightarrow> string \<Rightarrow> employee list" where
  "applyFilters rt xs filters logic =
     (if filters = [] then xs else filter (matches rt filters logic) xs)"

section \<open>Sorting\<close>

text \<open>
  The comparator that \<^verbatim>\<open>applySort\<close> passes to \<^verbatim>\<open>sort\<close>. When the first value is a string
  it is compared with \<^verbatim>\<open>localeCompare\<close>, whose argument is converted to a string;
  otherwise the two values are subtracted, each converted to a number.
\<close>

definition compareRecords :: "runtime \<Rightarrow> string \<Rightarrow> string \<Rightarrow> employee \<Rightarrow> employee \<Rightarrow> number" where
  "compareRecords rt sortField sortOrder a b =
     (let aVal = getProp a sortField;
          bVal = getProp b sortField;
          comparison =
            (case aVal of
               JStr s \<Rightarrow> Fin (of_int (localeCompare rt s (String_js rt bVal)))
             | _ \<Rightarrow> num_sub (Number_js rt aVal) (Number_js rt bVal))
      in if sortOrder = ''desc'' then num_neg comparison else comparison)"

text \<open>
  \<^verbatim>\<open>Array.prototype.sort(comparefn)\<close>, as ECMAScript (2019 and later) specifies it. The
  language fixes the result only for a \<^emph>\<open>consistent comparator\<close> on the elements: no
  comparison is NaN, being equal (result 0) is reflexive, symmetric and transitive, and
  being less and being greater are transitive. Then the result is the sorted
  permutation that keeps equal elements in their order. There is one such list
  (\<open>stable_sort_unique\<close> below) and the insertion sort \<open>stable_sort\<close> computes it. For any
  other comparator the order is implementation-defined: the model returns \<open>None\<close>.
\<close>

definition cmp_eq :: "('a \<Rightarrow> 'a \<Rightarrow> number) \<Rightarrow> 'a \<Rightarrow> 'a \<Rightarrow> bool" where
  "cmp_eq cmp a b = (cmp a b = Fin 0)"

definition cmp_lt :: "('a \<Rightarrow> 'a \<Rightarrow> number) \<Rightarrow> 'a \<Rightarrow> 'a \<Rightarrow> bool" where
  "cmp_lt cmp a b = num_less (cmp a b) (Fin 0)"

definition cmp_gt :: "('a \<Rightarrow> 'a \<Rightarrow> number) \<Rightarrow> 'a \<Rightarrow> 'a \<Rightarrow> bool" where
  "cmp_gt cmp a b = num_less (Fin 0) (cmp a b)"

definition consistent3 :: "('a \<Rightarrow> 'a \<Rightarrow> number) \<Rightarrow> 'a \<Rightarrow> 'a \<Rightarrow> 'a \<Rightarrow> bool" where
  "consistent3 cmp a b c =
     (cmp a b \<noteq> NaN \<and> cmp_eq cmp a a \<and>
      (if cmp_eq cmp a b then cmp_eq cmp b a else True) \<and>
      (if cmp_eq cmp a b \<and> cmp_eq cmp b c then cmp_eq cmp a c else True) \<and>
      (if cmp_lt cmp a b \<and> cmp_lt cmp b c then cmp_lt cmp a c else True) \<and>
      (if cmp_gt cmp a b \<and> cmp_gt cmp b c then cmp_gt cmp a c else True))"

definition consistent :: "('a \<Rightarrow> 'a \<Rightarrow> number) \<Rightarrow> 'a list \<Rightarrow> bool" where
  "consistent cmp xs =
     list_all (\<lambda>a. list_all (\<lambda>b. list_all (\<lambda>c. consistent3 cmp a b c) xs) xs) xs"

fun insert_cmp :: "('a \<Rightarrow> 'a \<Rightarrow> number) \<Rightarrow> 'a \<Rightarrow> 'a list \<Rightarrow> 'a list" where
  "insert_cmp cmp x [] = [x]"
| "insert_cmp cmp x (y # ys) =
     (if cmp_gt cmp x y then y # insert_cmp cmp x ys else x # y # ys)"

fun stable_sort :: "('a \<Rightarrow> 'a \<Rightarrow> number) \<Rightarrow> 'a list \<Rightarrow> 'a list" where
  "stable_sort cmp [] = []"
| "stable_sort cmp (x # xs) = insert_cmp cmp x (stable_sort cmp xs)"

definition Array_sort :: "('a \<Rightarrow> 'a \<Rightarrow> number) \<Rightarrow> 'a list \<Rightarrow> 'a list option" where
  "Array_sort cmp xs = (if consistent cmp xs then Some (stable_sort cmp xs) else None)"

text \<open>
  \<^verbatim>\<open>applySort(data, sortField, sortOrder)\<close>. The sort field is a query parameter:
  missing (\<open>None\<close>) or a string, and \<^verbatim>\<open>!sortField\<close> holds when it is missing or empty.
  \<open>None\<close> as the result stands for an order that the language leaves open.
\<close>

definition applySort :: "runtime \<Rightarrow> employee list \<Rightarrow> string option \<Rightarrow> string \<Rightarrow> employee list option" where
  "applySort rt xs sortField sortOrder =
     (case sortField of
        None \<Rightarrow> Some xs
      | Some sf \<Rightarrow>
          if sf = [] then Some xs
          else Array_sort (compareRecords rt sf sortOrder) xs)"

section \<open>Pagination\<close>

text \<open>
  \<^verbatim>\<open>Array.prototype.slice(start, end)\<close> on integer arguments: a negative index counts
  from the end, and both ends are clamped to the array.
\<close>

definition slice :: "'a list \<Rightarrow> int \<Rightarrow> int \<Rightarrow> 'a list" where
  "slice xs start end =
     (let len = int (length xs);
          k = (if start < 0 then max (len + start) 0 else min start len);
          final = (if end < 0 then max (len + end) 0 else min end len)
      in take (nat (final - k)) (drop (nat k) xs))"

record 'a paginated =
  data :: "'a list"
  total :: int
  hasMore :: bool

text \<open>
  \<^verbatim>\<open>paginate(data, page, limit)\<close>. The handler passes \<^verbatim>\<open>parseInt\<close> results, so page and
  limit are integers.
\<close>

definition paginate :: "'a list \<Rightarrow> int \<Rightarrow> int \<Rightarrow> 'a paginated" where
  "paginate xs page limit =
     (let start = page * limit;
          end = start + limit
      in \<lparr> data = slice xs start end,
           total = int (length xs),
           hasMore = (end < int (length xs)) \<rparr>)"

text \<open>
  What can throw. The handler takes \<^verbatim>\<open>employees\<close> out of the parsed file; when the file
  has no such key it is \<^verbatim>\<open>undefined\<close> (\<open>None\<close> below), and calling a method on it throws
  a \<^verbatim>\<open>TypeError\<close>. \<^verbatim>\<open>paginate\<close> calls \<^verbatim>\<open>data.slice\<close> and reads \<^verbatim>\<open>data.length\<close>;
  \<^verbatim>\<open>applyFilters\<close> returns \<^verbatim>\<open>data\<close> untouched when there are no filters and calls
  \<^verbatim>\<open>data.filter\<close> otherwise. On an array neither has a statement that throws.
\<close>

datatype 'a completion = Normal 'a | TypeError

definition paginate_js :: "'a list option \<Rightarrow> int \<Rightarrow> int \<Rightarrow> 'a paginated completion" where
  "paginate_js d page limit =
     (case d of None \<Rightarrow> TypeError | Some xs \<Rightarrow> Normal (paginate xs page limit))"

definition applyFilters_js ::
  "runtime \<Rightarrow> employee list option \<Rightarrow> Filter list \<Rightarrow> string \<Rightarrow> employee list option completion" where
  "applyFilters_js rt d filters logic =
     (if filters = [] then Normal d
      else case d of
             None \<Rightarrow> TypeError
           | Some xs \<Rightarrow> Normal (Some (applyFilters rt xs filters logic)))"

section \<open>The request handler and the client\<close>

text \<open>
  The handler of \<^verbatim>\<open>GET /api/records\<close>: filter, then sort, then paginate.
\<close>

definition getRecords ::
  "runtime \<Rightarrow> employee list \<Rightarrow> Filter list \<Rightarrow> string \<Rightarrow> string option \<Rightarrow> string \<Rightarrow> int \<Rightarrow> int
   \<Rightarrow> employee paginated option" where
  "getRecords rt employees filters logic sortField sortOrder page limit =
     (case applySort rt (applyFilters rt employees filters logic) sortField sortOrder of
        None \<Rightarrow> None
      | Some result \<Rightarrow> Some (paginate result page limit))"


section \<open>A concrete runtime and example data\<close>

text \<open>
  An instance of the runtime on which the model can be evaluated. It agrees with
  JavaScript on ASCII strings and on natural numbers written as decimal digits, which is
  all the examples below use: lower-casing of the letters A to Z, comparison of strings
  by code unit (standing for a collation), and natural numbers in decimal notation.
  Beyond that (letters outside ASCII, fractions, exponents, signs inside strings) it is
  not JavaScript; only the examples depend on it, no theorem about the engine does.
\<close>

definition lower_char :: "char \<Rightarrow> char" where
  "lower_char c =
     (case map_of (zip ''ABCDEFGHIJKLMNOPQRSTUVWXYZ'' ''abcdefghijklmnopqrstuvwxyz'') c of
        None \<Rightarrow> c
      | Some l \<Rightarrow> l)"

fun compare_units :: "string \<Rightarrow> string \<Rightarrow> int" where
  "compare_units [] [] = 0"
| "compare_units [] (b # bs) = - 1"
| "compare_units (a # as) [] = 1"
| "compare_units (a # as) (b # bs) =
     (if (of_char a :: nat) < of_char b then - 1
      else if (of_char b :: nat) < of_char a then 1
      else compare_units as bs)"

definition digit_value :: "char \<Rightarrow> nat option" where
  "digit_value = map_of (zip ''0123456789'' [0, 1, 2, 3, 4, 5, 6, 7, 8, 9])"

fun read_digits :: "nat \<Rightarrow> string \<Rightarrow> nat option" where
  "read_digits acc [] = Some acc"
| "read_digits acc (c # cs) =
     (case digit_value c of None \<Rightarrow> None | Some d \<Rightarrow> read_digits (10 * acc + d) cs)"

definition read_number :: "string \<Rightarrow> number" where
  "read_number s = (case read_digits 0 s of None \<Rightarrow> NaN | Some n \<Rightarrow> Fin (of_nat n))"

fun show_digits :: "nat \<Rightarrow> nat \<Rightarrow> string" where
  "show_digits 0 n = []"
| "show_digits (Suc fuel) n =
     (if n < 10 then [''0123456789'' ! n]
      else show_digits fuel (n div 10) @ [''0123456789'' ! (n mod 10)])"

definition show_number :: "number \<Rightarrow> string" where
  "show_number x =
     (case x of
        NaN \<Rightarrow> ''NaN''
      | PosInf \<Rightarrow> ''Infinity''
      | NegInf \<Rightarrow> ''-Infinity''
      | Fin q \<Rightarrow>
          (let i = \<lfloor>q\<rfloor>
           in (if i < 0 then ''-'' else []) @ show_digits (Suc (nat \<bar>i\<bar>)) (nat \<bar>i\<bar>)))"

definition ascii_runtime :: runtime where
  "ascii_runtime =
     \<lparr> toLowerCase = map lower_char,
       localeCompare = compare_units,
       numberToString = show_number,
       stringToNumber = read_number \<rparr>"

text \<open>The records of the scenarios of the specification, and a record without an age.\<close>

definition person :: "string \<Rightarrow> rat \<Rightarrow> employee" where
  "person n a = [''name'' \<mapsto> JStr n, ''age'' \<mapsto> JNum (Fin a)]"

definition bob :: employee where "bob = person ''Bob'' 30"
definition amy :: employee where "amy = person ''Amy'' 25"
definition cid :: employee where "cid = person ''Cid'' 25"
definition dee :: employee where "dee = [''name'' \<mapsto> JStr ''Dee'']"
definition eve :: employee where "eve = [''name'' \<mapsto> JStr ''Eve'', ''age'' \<mapsto> JNull]"

definition nameContainsO :: Filter where
  "nameContainsO = \<lparr> field = ''name'', operator = ''contains'', filterValue = JStr ''o'' \<rparr>"

definition ageBelow26 :: Filter where
  "ageBelow26 = \<lparr> field = ''age'', operator = ''<'', filterValue = JStr ''26'' \<rparr>"

definition ageAtLeast25 :: Filter where
  "ageAtLeast25 = \<lparr> field = ''age'', operator = ''>='', filterValue = JStr ''25'' \<rparr>"

definition nameEqualsAMY :: Filter where
  "nameEqualsAMY = \<lparr> field = ''name'', operator = ''equals'', filterValue = JStr ''AMY'' \<rparr>"

definition constructorContainsObject :: Filter where
  "constructorContainsObject =
     \<lparr> field = ''constructor'', operator = ''contains'', filterValue = JStr ''object'' \<rparr>"

definition ageEqualsNull :: Filter where
  "ageEqualsNull = \<lparr> field = ''age'', operator = ''equals'', filterValue = JStr ''null'' \<rparr>"

section \<open>Properties of the filter stage\<close>

lemma matches_iff:
  "matches rt filters logic r =
     (if logic = ''OR'' then (\<exists>f\<in>set filters. evalCondition rt r f)
      else (\<forall>f\<in>set filters. evalCondition rt r f))"
  by (simp add: matches_def Let_def list_ex_iff list_all_iff)

lemma matches_perm:
  assumes "mset filters' = mset filters"
  shows "matches rt filters' logic = matches rt filters logic"
proof -
  have "set filters' = set filters"
    using assms by (rule mset_eq_setD)
  then show ?thesis
    by (intro ext) (simp add: matches_iff)
qed

text \<open>
  Claim C1. For a non-empty filter set the filter stage keeps exactly the records on
  which the combined predicate holds: under \<^verbatim>\<open>OR\<close> the records on which some condition
  is true, under \<^verbatim>\<open>AND\<close> (and any other combinator string) the records on which every
  condition is true; and listing the conditions in another order keeps the same
  records.
\<close>

theorem applyFilters_combinator:
  "filters \<noteq> [] \<Longrightarrow>
   applyFilters rt xs filters logic =
     filter (\<lambda>r. if logic = ''OR'' then (\<exists>f\<in>set filters. evalCondition rt r f)
                 else (\<forall>f\<in>set filters. evalCondition rt r f)) xs \<and>
   (mset filters' = mset filters \<longrightarrow>
      applyFilters rt xs filters' logic = applyFilters rt xs filters logic)"
proof (intro conjI impI)
  assume ne: "filters \<noteq> []"
  have m: "matches rt filters logic =
      (\<lambda>r. if logic = ''OR'' then (\<exists>f\<in>set filters. evalCondition rt r f)
           else (\<forall>f\<in>set filters. evalCondition rt r f))"
    by (rule ext) (rule matches_iff)
  have "applyFilters rt xs filters logic = filter (matches rt filters logic) xs"
    using ne by (simp add: applyFilters_def)
  then show "applyFilters rt xs filters logic =
     filter (\<lambda>r. if logic = ''OR'' then (\<exists>f\<in>set filters. evalCondition rt r f)
                 else (\<forall>f\<in>set filters. evalCondition rt r f)) xs"
    by (simp only: m)
next
  assume p: "mset filters' = mset filters"
  have "length filters' = length filters"
    using p by (rule mset_eq_length)
  then have "(filters' = []) = (filters = [])"
    by (cases filters) auto
  then show "applyFilters rt xs filters' logic = applyFilters rt xs filters logic"
    by (simp add: applyFilters_def matches_perm [OF p])
qed

text \<open>
  The second scenario of the specification: \<^verbatim>\<open>name contains "o"\<close> or \<^verbatim>\<open>age < 26\<close> keeps
  Bob, Amy and Cid, in either order of the two conditions.
\<close>

theorem applyFilters_combinator_witness:
  "[nameContainsO, ageBelow26] \<noteq> [] \<and>
   applyFilters ascii_runtime [bob, amy, cid] [nameContainsO, ageBelow26] ''OR'' = [bob, amy, cid] \<and>
   applyFilters ascii_runtime [bob, amy, cid] [ageBelow26, nameContainsO] ''OR'' =
     applyFilters ascii_runtime [bob, amy, cid] [nameContainsO, ageBelow26] ''OR''"
proof -
  have ne: "[nameContainsO, ageBelow26] \<noteq> []" by simp
  have b: "evalCondition ascii_runtime bob nameContainsO" by code_simp
  have a: "evalCondition ascii_runtime amy ageBelow26" by code_simp
  have c: "evalCondition ascii_runtime cid ageBelow26" by code_simp
  have p: "mset [ageBelow26, nameContainsO] = mset [nameContainsO, ageBelow26]" by simp
  note both = applyFilters_combinator [OF ne, where rt = ascii_runtime and xs = "[bob, amy, cid]"
      and logic = "''OR''" and filters' = "[ageBelow26, nameContainsO]"]
  have "applyFilters ascii_runtime [bob, amy, cid] [nameContainsO, ageBelow26] ''OR'' =
      filter (\<lambda>r. \<exists>f\<in>set [nameContainsO, ageBelow26]. evalCondition ascii_runtime r f)
        [bob, amy, cid]"
    using conjunct1 [OF both] by simp
  also have "\<dots> = [bob, amy, cid]"
    using a b c by simp
  finally have kept: "applyFilters ascii_runtime [bob, amy, cid] [nameContainsO, ageBelow26] ''OR'' =
      [bob, amy, cid]" .
  have perm: "applyFilters ascii_runtime [bob, amy, cid] [ageBelow26, nameContainsO] ''OR'' =
      applyFilters ascii_runtime [bob, amy, cid] [nameContainsO, ageBelow26] ''OR''"
    using conjunct2 [OF both] p by (rule mp)
  show ?thesis
    using ne kept perm by (intro conjI)
qed

text \<open>
  Claim C4. With an empty filter set the filter stage returns its input as it is, for
  every combinator.
\<close>

theorem applyFilters_empty: "applyFilters rt xs [] logic = xs"
  by (simp add: applyFilters_def)

theorem applyFilters_empty_witness:
  "applyFilters ascii_runtime [bob, amy, cid] [] ''OR'' = [bob, amy, cid]"
  using applyFilters_empty [of ascii_runtime "[bob, amy, cid]" "''OR''"] .

text \<open>
  Claim C5, as the code has it. A condition on a field whose value in the record is
  undefined or null is false, whatever the operator. That is the case of a field name
  unknown to the record, unless it is the name of a property that every object
  inherits, such as \<^verbatim>\<open>constructor\<close>.
\<close>

theorem absent_field_false:
  "(r (field f) = None \<and> objectPrototype (field f) = None) \<or>
   getProp r (field f) = JUndefined \<or> getProp r (field f) = JNull
   \<Longrightarrow> \<not> evalCondition rt r f"
  by (auto simp add: evalCondition_def getProp_def Let_def)

theorem absent_field_false_witness:
  "dee (field ageAtLeast25) = None \<and> objectPrototype (field ageAtLeast25) = None \<and>
   \<not> evalCondition ascii_runtime dee ageAtLeast25"
proof -
  have h: "dee (field ageAtLeast25) = None \<and> objectPrototype (field ageAtLeast25) = None"
    by (simp add: dee_def ageAtLeast25_def objectPrototype_def)
  then have "(dee (field ageAtLeast25) = None \<and> objectPrototype (field ageAtLeast25) = None) \<or>
      getProp dee (field ageAtLeast25) = JUndefined \<or> getProp dee (field ageAtLeast25) = JNull"
    by (rule disjI1)
  then have "\<not> evalCondition ascii_runtime dee ageAtLeast25"
    by (rule absent_field_false)
  with h show ?thesis by simp
qed

text \<open>
  Stated for every unknown field name, C5 fails on an inherited one: Dee has no key
  \<^verbatim>\<open>constructor\<close>, the lookup finds the function \<^verbatim>\<open>Object\<close>, and its string form contains
  \<^verbatim>\<open>object\<close>, so the condition is true.
\<close>

theorem inherited_field_counterexample:
  "dee (field constructorContainsObject) = None \<and>
   evalCondition ascii_runtime dee constructorContainsObject"
proof -
  have "dee (field constructorContainsObject) = None"
    by (simp add: dee_def constructorContainsObject_def)
  moreover have "evalCondition ascii_runtime dee constructorContainsObject"
    by code_simp
  ultimately show ?thesis by (rule conjI)
qed

text \<open>
  Claim C6, as the code has it. A condition with the operator \<^verbatim>\<open>equals\<close> is true exactly
  when the value of the field is present (neither undefined nor null) and its string
  form equals the string form of the filter value, both in lower case.
\<close>

theorem equals_present:
  "operator f = ''equals'' \<Longrightarrow>
   evalCondition rt r f =
     (getProp r (field f) \<noteq> JUndefined \<and> getProp r (field f) \<noteq> JNull \<and>
      toLowerCase rt (String_js rt (getProp r (field f))) =
        toLowerCase rt (String_js rt (filterValue f)))"
  by (simp add: evalCondition_def Let_def)

theorem equals_present_witness:
  "operator nameEqualsAMY = ''equals'' \<and> evalCondition ascii_runtime amy nameEqualsAMY"
proof -
  have h: "operator nameEqualsAMY = ''equals''"
    by (simp add: nameEqualsAMY_def)
  have "getProp amy (field nameEqualsAMY) \<noteq> JUndefined \<and>
      getProp amy (field nameEqualsAMY) \<noteq> JNull \<and>
      toLowerCase ascii_runtime (String_js ascii_runtime (getProp amy (field nameEqualsAMY))) =
        toLowerCase ascii_runtime (String_js ascii_runtime (filterValue nameEqualsAMY))"
    by code_simp
  with equals_present [OF h, of ascii_runtime amy] h show ?thesis by simp
qed

text \<open>
  Stated for every record, C6 fails on a record whose value is absent: Eve's age is
  null, the string form of null is \<^verbatim>\<open>null\<close>, which equals the filter value, and yet the
  condition is false.
\<close>

theorem equals_absent_counterexample:
  "\<not> evalCondition ascii_runtime eve ageEqualsNull \<and>
   toLowerCase ascii_runtime (String_js ascii_runtime (getProp eve (field ageEqualsNull))) =
     toLowerCase ascii_runtime (String_js ascii_runtime (filterValue ageEqualsNull))"
  by code_simp

text \<open>
  Claim C10. The output of the filter stage is a subsequence of its input: it is
  obtained by deleting records, so every record kept occurs in the input, the records
  kept are in their input order and none is repeated.
\<close>

theorem applyFilters_subseq: "subseq (applyFilters rt xs filters logic) xs"
  by (simp add: applyFilters_def)

theorem applyFilters_subseq_witness:
  "subseq (applyFilters ascii_runtime [bob, amy, cid] [ageBelow26] ''AND'') [bob, amy, cid]"
  using applyFilters_subseq [of ascii_runtime "[bob, amy, cid]" "[ageBelow26]" "''AND''"] .

section \<open>Properties of pagination\<close>

text \<open>
  Claim C3. The total of a page is the length of the sequence that is paginated, and
  \<^verbatim>\<open>hasMore\<close> holds exactly when the end offset of the page, page times limit plus
  limit, is below the total.
\<close>

theorem paginate_total_hasMore:
  "total (paginate xs page limit) = int (length xs) \<and>
   (hasMore (paginate xs page limit) \<longleftrightarrow>
      page * limit + limit < total (paginate xs page limit))"
  by (simp add: paginate_def Let_def)

theorem paginate_total_hasMore_witness:
  "total (paginate [bob, amy, cid] 0 2) = 3 \<and> hasMore (paginate [bob, amy, cid] 0 2)"
  using paginate_total_hasMore [of "[bob, amy, cid]" 0 2] by simp

text \<open>
  Claim C9, as the code has it. On a sequence \<^verbatim>\<open>paginate\<close> returns without an error for
  every page index and page size, and filtering with an empty filter set returns
  without an error whatever it is given. For a positive page size, a page that starts
  at or beyond the end of the sequence (so its index is not negative) is the empty page
  with \<^verbatim>\<open>hasMore\<close> false.
\<close>

theorem paginate_out_of_range:
  "paginate_js (Some xs) page limit = Normal (paginate xs page limit) \<and>
   applyFilters_js rt d [] logic = Normal d \<and>
   (0 < limit \<and> int (length xs) \<le> page * limit \<longrightarrow>
      data (paginate xs page limit) = [] \<and> \<not> hasMore (paginate xs page limit))"
  by (auto simp add: paginate_js_def applyFilters_js_def paginate_def slice_def Let_def
      min_def max_def)

theorem paginate_out_of_range_witness:
  "(0::int) < 2 \<and> int (length [bob, amy, cid]) \<le> 5 * 2 \<and>
   paginate_js (Some [bob, amy, cid]) 5 2 = Normal (paginate [bob, amy, cid] 5 2) \<and>
   data (paginate [bob, amy, cid] 5 2) = [] \<and> \<not> hasMore (paginate [bob, amy, cid] 5 2) \<and>
   applyFilters_js ascii_runtime None [] ''AND'' = Normal None"
  using paginate_out_of_range [of "[bob, amy, cid]" 5 2 ascii_runtime None "''AND''"] by simp

text \<open>
  Stated for every page index and page size, C9 fails outside these bounds, on values
  that the handler passes on from \<^verbatim>\<open>parseInt\<close>: page -1 with limit 2, and page 5 with
  limit -2, are empty pages of three records that still say \<^verbatim>\<open>hasMore\<close>.
\<close>

theorem paginate_negative_counterexample:
  "paginate_js (Some [bob, amy, cid]) (- 1) 2 =
     Normal \<lparr> data = [], total = 3, hasMore = True \<rparr> \<and>
   paginate_js (Some [bob, amy, cid]) 5 (- 2) =
     Normal \<lparr> data = [], total = 3, hasMore = True \<rparr>"
  by (simp add: paginate_js_def paginate_def slice_def)

text \<open>\<^verbatim>\<open>paginate\<close> throws when there is no sequence.\<close>

lemma paginate_js_undefined: "paginate_js None page limit = TypeError"
  by (simp add: paginate_js_def)






section \<open>Properties of sorting\<close>

subsection \<open>Consistent comparators\<close>

lemma consistentD:
  "consistent cmp xs \<Longrightarrow> a \<in> set xs \<Longrightarrow> b \<in> set xs \<Longrightarrow> c \<in> set xs \<Longrightarrow> consistent3 cmp a b c"
  by (simp add: consistent_def list_all_iff)

lemma consistent_NaN:
  "r \<in> set xs \<Longrightarrow> cmp r b = NaN \<Longrightarrow> b \<in> set xs \<Longrightarrow> \<not> consistent cmp xs"
  by (auto simp add: consistent3_def dest: consistentD)

lemma trichotomy:
  "v \<noteq> NaN \<Longrightarrow>
   (num_less v (Fin 0) \<and> v \<noteq> Fin 0 \<and> \<not> num_less (Fin 0) v) \<or>
   (\<not> num_less v (Fin 0) \<and> v = Fin 0 \<and> \<not> num_less (Fin 0) v) \<or>
   (\<not> num_less v (Fin 0) \<and> v \<noteq> Fin 0 \<and> num_less (Fin 0) v)"
  by (cases v) auto

lemma cmp_cases:
  assumes "consistent cmp zs" "x \<in> set zs" "y \<in> set zs"
  shows "(cmp_lt cmp x y \<and> \<not> cmp_eq cmp x y \<and> \<not> cmp_gt cmp x y) \<or>
         (\<not> cmp_lt cmp x y \<and> cmp_eq cmp x y \<and> \<not> cmp_gt cmp x y) \<or>
         (\<not> cmp_lt cmp x y \<and> \<not> cmp_eq cmp x y \<and> cmp_gt cmp x y)"
proof -
  have "cmp x y \<noteq> NaN"
    using consistentD [OF assms(1) assms(2) assms(3) assms(3)] by (simp add: consistent3_def)
  from trichotomy [OF this] show ?thesis
    by (simp add: cmp_lt_def cmp_eq_def cmp_gt_def)
qed

lemma cmp_refl: "consistent cmp zs \<Longrightarrow> x \<in> set zs \<Longrightarrow> cmp_eq cmp x x"
  using consistentD [of cmp zs x x x] by (simp add: consistent3_def)

lemma cmp_sym:
  "consistent cmp zs \<Longrightarrow> x \<in> set zs \<Longrightarrow> y \<in> set zs \<Longrightarrow> cmp_eq cmp x y \<Longrightarrow> cmp_eq cmp y x"
  using consistentD [of cmp zs x y y] by (simp add: consistent3_def split: if_splits)

lemma cmp_eq_trans:
  "consistent cmp zs \<Longrightarrow> x \<in> set zs \<Longrightarrow> y \<in> set zs \<Longrightarrow> z \<in> set zs \<Longrightarrow>
   cmp_eq cmp x y \<Longrightarrow> cmp_eq cmp y z \<Longrightarrow> cmp_eq cmp x z"
  using consistentD [of cmp zs x y z] by (simp add: consistent3_def split: if_splits)

lemma cmp_lt_trans:
  "consistent cmp zs \<Longrightarrow> x \<in> set zs \<Longrightarrow> y \<in> set zs \<Longrightarrow> z \<in> set zs \<Longrightarrow>
   cmp_lt cmp x y \<Longrightarrow> cmp_lt cmp y z \<Longrightarrow> cmp_lt cmp x z"
  using consistentD [of cmp zs x y z] by (simp add: consistent3_def split: if_splits)

lemma cmp_gt_trans:
  "consistent cmp zs \<Longrightarrow> x \<in> set zs \<Longrightarrow> y \<in> set zs \<Longrightarrow> z \<in> set zs \<Longrightarrow>
   cmp_gt cmp x y \<Longrightarrow> cmp_gt cmp y z \<Longrightarrow> cmp_gt cmp x z"
  using consistentD [of cmp zs x y z] by (simp add: consistent3_def split: if_splits)

text \<open>Less and greater mirror each other, and equal elements compare alike.\<close>

lemma cmp_gt_flip:
  assumes c: "consistent cmp zs" and x: "x \<in> set zs" and y: "y \<in> set zs"
    and gt: "cmp_gt cmp x y"
  shows "cmp_lt cmp y x"
proof -
  have "\<not> cmp_eq cmp y x"
    using cmp_sym [OF c y x] cmp_cases [OF c x y] gt by blast
  moreover have "\<not> cmp_gt cmp y x"
    using cmp_gt_trans [OF c x y x] cmp_refl [OF c x] cmp_cases [OF c x x] gt by blast
  ultimately show ?thesis
    using cmp_cases [OF c y x] by blast
qed

lemma cmp_lt_flip:
  assumes c: "consistent cmp zs" and x: "x \<in> set zs" and y: "y \<in> set zs"
    and lt: "cmp_lt cmp x y"
  shows "cmp_gt cmp y x"
proof -
  have "\<not> cmp_eq cmp y x"
    using cmp_sym [OF c y x] cmp_cases [OF c x y] lt by blast
  moreover have "\<not> cmp_lt cmp y x"
    using cmp_lt_trans [OF c x y x] cmp_refl [OF c x] cmp_cases [OF c x x] lt by blast
  ultimately show ?thesis
    using cmp_cases [OF c y x] by blast
qed

lemma cmp_eq_gt:
  assumes c: "consistent cmp zs" and x: "x \<in> set zs" and y: "y \<in> set zs" and z: "z \<in> set zs"
    and xy: "cmp_eq cmp x y" and xz: "cmp_gt cmp x z"
  shows "cmp_gt cmp y z"
proof -
  have "\<not> cmp_eq cmp y z"
    using cmp_eq_trans [OF c x y z] cmp_cases [OF c x z] xy xz by blast
  moreover have "\<not> cmp_lt cmp y z"
  proof
    assume "cmp_lt cmp y z"
    moreover have "cmp_lt cmp z x"
      using cmp_gt_flip [OF c x z xz] .
    ultimately have "cmp_lt cmp y x"
      using cmp_lt_trans [OF c y z x] by blast
    moreover have "cmp_eq cmp y x"
      using cmp_sym [OF c x y xy] .
    ultimately show False
      using cmp_cases [OF c y x] by blast
  qed
  ultimately show ?thesis
    using cmp_cases [OF c y z] by blast
qed

lemma not_gt_trans:
  assumes c: "consistent cmp zs" and x: "x \<in> set zs" and y: "y \<in> set zs" and z: "z \<in> set zs"
    and xy: "\<not> cmp_gt cmp x y" and yz: "\<not> cmp_gt cmp y z"
  shows "\<not> cmp_gt cmp x z"
proof
  assume xz: "cmp_gt cmp x z"
  consider "cmp_eq cmp x y" | "cmp_lt cmp x y"
    using cmp_cases [OF c x y] xy by blast
  then show False
  proof cases
    case 1
    from cmp_eq_gt [OF c x y z 1 xz] yz show False by blast
  next
    case 2
    have "cmp_lt cmp z x" using cmp_gt_flip [OF c x z xz] .
    with 2 have "cmp_lt cmp z y" using cmp_lt_trans [OF c z x y] by blast
    then have "cmp_gt cmp y z" using cmp_lt_flip [OF c z y] by blast
    with yz show False by blast
  qed
qed

subsection \<open>The sort is a stable sorting permutation\<close>

lemma set_insert_cmp: "set (insert_cmp cmp x ys) = insert x (set ys)"
  by (induction ys) auto

lemma mset_insert_cmp: "mset (insert_cmp cmp x ys) = add_mset x (mset ys)"
  by (induction ys) auto

lemma mset_stable_sort: "mset (stable_sort cmp xs) = mset xs"
  by (induction xs) (auto simp add: mset_insert_cmp)

lemma set_stable_sort: "set (stable_sort cmp xs) = set xs"
  by (induction xs) (auto simp add: set_insert_cmp)

lemma sorted_insert_cmp:
  assumes c: "consistent cmp zs" and x: "x \<in> set zs"
  shows "set ys \<subseteq> set zs \<Longrightarrow> sorted_wrt (\<lambda>a b. \<not> cmp_gt cmp a b) ys \<Longrightarrow>
    sorted_wrt (\<lambda>a b. \<not> cmp_gt cmp a b) (insert_cmp cmp x ys)"
proof (induction ys)
  case Nil
  then show ?case by simp
next
  case (Cons y ys)
  have y: "y \<in> set zs" using Cons.prems(1) by simp
  show ?case
  proof (cases "cmp_gt cmp x y")
    case True
    have "cmp_lt cmp y x"
      using cmp_gt_flip [OF c x y True] .
    then have "\<not> cmp_gt cmp y x"
      using cmp_cases [OF c y x] by blast
    then show ?thesis
      using True Cons by (auto simp add: set_insert_cmp)
  next
    case False
    have "\<not> cmp_gt cmp x b" if b: "b \<in> set ys" for b
    proof -
      have bz: "b \<in> set zs" using b Cons.prems(1) by auto
      have "\<not> cmp_gt cmp y b" using b Cons.prems(2) by simp
      with not_gt_trans [OF c x y bz False] show ?thesis by blast
    qed
    then show ?thesis
      using False Cons.prems by auto
  qed
qed

lemma sorted_stable_sort:
  "consistent cmp zs \<Longrightarrow> set xs \<subseteq> set zs \<Longrightarrow>
   sorted_wrt (\<lambda>a b. \<not> cmp_gt cmp a b) (stable_sort cmp xs)"
  by (induction xs) (auto simp add: sorted_insert_cmp set_stable_sort)

text \<open>
  Inserting passes only over elements that the new element is greater than; none of
  them is equal to an element that the new one is equal to.
\<close>

lemma filter_insert_cmp:
  "(\<And>y. y \<in> set ys \<Longrightarrow> P x \<Longrightarrow> cmp_gt cmp x y \<Longrightarrow> \<not> P y) \<Longrightarrow>
   filter P (insert_cmp cmp x ys) = (if P x then x # filter P ys else filter P ys)"
  by (induction ys) auto

lemma gt_not_eq_class:
  assumes c: "consistent cmp zs" and a: "a \<in> set zs" and x: "x \<in> set zs" and y: "y \<in> set zs"
    and ax: "cmp_eq cmp a x" and gt: "cmp_gt cmp x y"
  shows "\<not> cmp_eq cmp a y"
proof
  assume ay: "cmp_eq cmp a y"
  have "cmp_eq cmp x a"
    using consistentD [OF c a x x] ax by (simp add: consistent3_def split: if_splits)
  then have "cmp_eq cmp x y"
    using consistentD [OF c x a y] ay by (simp add: consistent3_def split: if_splits)
  with gt show False
    by (simp add: cmp_eq_def cmp_gt_def)
qed

lemma stable_sort_stable:
  "consistent cmp zs \<Longrightarrow> a \<in> set zs \<Longrightarrow> set xs \<subseteq> set zs \<Longrightarrow>
   filter (cmp_eq cmp a) (stable_sort cmp xs) = filter (cmp_eq cmp a) xs"
proof (induction xs)
  case Nil
  then show ?case by simp
next
  case (Cons x xs)
  have "filter (cmp_eq cmp a) (insert_cmp cmp x (stable_sort cmp xs)) =
      (if cmp_eq cmp a x then x # filter (cmp_eq cmp a) (stable_sort cmp xs)
       else filter (cmp_eq cmp a) (stable_sort cmp xs))"
  proof (rule filter_insert_cmp)
    fix y
    assume "y \<in> set (stable_sort cmp xs)" and "cmp_eq cmp a x" and "cmp_gt cmp x y"
    then show "\<not> cmp_eq cmp a y"
      using gt_not_eq_class [OF Cons.prems(1) Cons.prems(2), of x y] Cons.prems(3)
      by (auto simp add: set_stable_sort)
  qed
  then show ?case
    using Cons by simp
qed

lemma Array_sort_Some:
  "Array_sort cmp xs = Some ys \<Longrightarrow> consistent cmp xs \<and> ys = stable_sort cmp xs"
  by (auto simp add: Array_sort_def split: if_splits)

lemma applySort_mset: "applySort rt xs sortField sortOrder = Some ys \<Longrightarrow> mset ys = mset xs"
  by (auto simp add: applySort_def mset_stable_sort split: option.splits if_splits
      dest!: Array_sort_Some)

lemma applySort_sorted:
  "applySort rt xs (Some sf) sortOrder = Some ys \<Longrightarrow> sf \<noteq> [] \<Longrightarrow>
   sorted_wrt (\<lambda>a b. \<not> cmp_gt (compareRecords rt sf sortOrder) a b) ys"
  by (auto simp add: applySort_def sorted_stable_sort dest!: Array_sort_Some)

text \<open>
  Being a permutation, sorted and stable determines the output: whatever an engine does,
  on a consistent comparator it returns the list that \<open>stable_sort\<close> computes.
\<close>

lemma stable_sorted_unique_aux:
  assumes c: "consistent cmp zs"
  shows "set ys \<subseteq> set zs \<Longrightarrow> set ws \<subseteq> set zs \<Longrightarrow>
    sorted_wrt (\<lambda>a b. \<not> cmp_gt cmp a b) ys \<Longrightarrow> sorted_wrt (\<lambda>a b. \<not> cmp_gt cmp a b) ws \<Longrightarrow>
    (\<And>a. a \<in> set zs \<Longrightarrow> filter (cmp_eq cmp a) ys = filter (cmp_eq cmp a) ws) \<Longrightarrow>
    ys = ws"
proof (induction ys arbitrary: ws)
  case Nil
  show ?case
  proof (cases ws)
    case Nil
    then show ?thesis by simp
  next
    case (Cons w ws')
    then have w: "w \<in> set zs" using Nil.prems(2) by simp
    have "cmp_eq cmp w w" using cmp_refl [OF c w] .
    with Nil.prems(5) [OF w] Cons show ?thesis by simp
  qed
next
  case (Cons y ys')
  have y: "y \<in> set zs" using Cons.prems(1) by simp
  have yy: "cmp_eq cmp y y" using cmp_refl [OF c y] .
  have fy: "filter (cmp_eq cmp y) ws = y # filter (cmp_eq cmp y) ys'"
    using Cons.prems(5) [OF y] yy by simp
  then obtain w ws' where ws: "ws = w # ws'"
    by (cases ws) auto
  have w: "w \<in> set zs" using Cons.prems(2) ws by simp
  have ww: "cmp_eq cmp w w" using cmp_refl [OF c w] .
  have "w = y"
  proof (cases "cmp_eq cmp y w")
    case True
    with fy ws show ?thesis by simp
  next
    case False
    then have nwy: "\<not> cmp_eq cmp w y"
      using cmp_sym [OF c w y] by blast
    have "filter (cmp_eq cmp w) (y # ys') = w # filter (cmp_eq cmp w) ws'"
      using Cons.prems(5) [OF w] ws ww by simp
    with nwy have "filter (cmp_eq cmp w) ys' = w # filter (cmp_eq cmp w) ws'"
      by simp
    then have "w \<in> set (filter (cmp_eq cmp w) ys')"
      by simp
    then have "w \<in> set ys'" by simp
    with Cons.prems(3) have 1: "\<not> cmp_gt cmp y w" by simp
    from fy ws False have "filter (cmp_eq cmp y) ws' = y # filter (cmp_eq cmp y) ys'"
      by simp
    then have "y \<in> set (filter (cmp_eq cmp y) ws')"
      by simp
    then have "y \<in> set ws'" by simp
    with Cons.prems(4) ws have 2: "\<not> cmp_gt cmp w y" by simp
    from cmp_cases [OF c y w] False 1 have "cmp_lt cmp y w" by blast
    from cmp_lt_flip [OF c y w this] 2 show ?thesis by blast
  qed
  with ws have ws': "ws = y # ws'" by simp
  have "ys' = ws'"
  proof (rule Cons.IH)
    show "set ys' \<subseteq> set zs" using Cons.prems(1) by simp
    show "set ws' \<subseteq> set zs" using Cons.prems(2) ws' by simp
    show "sorted_wrt (\<lambda>a b. \<not> cmp_gt cmp a b) ys'" using Cons.prems(3) by simp
    show "sorted_wrt (\<lambda>a b. \<not> cmp_gt cmp a b) ws'" using Cons.prems(4) ws' by simp
    fix a
    assume a: "a \<in> set zs"
    from Cons.prems(5) [OF a] ws'
    show "filter (cmp_eq cmp a) ys' = filter (cmp_eq cmp a) ws'"
      by (simp split: if_splits)
  qed
  with ws' show ?case by simp
qed

lemma stable_sort_unique:
  assumes c: "consistent cmp xs"
    and p: "mset ys = mset xs"
    and s: "sorted_wrt (\<lambda>a b. \<not> cmp_gt cmp a b) ys"
    and st: "\<And>a. a \<in> set xs \<Longrightarrow> filter (cmp_eq cmp a) ys = filter (cmp_eq cmp a) xs"
  shows "ys = stable_sort cmp xs"
proof (rule stable_sorted_unique_aux [OF c])
  have "set ys = set xs" using p by (rule mset_eq_setD)
  then show "set ys \<subseteq> set xs" by simp
  show "set (stable_sort cmp xs) \<subseteq> set xs" by (simp add: set_stable_sort)
  show "sorted_wrt (\<lambda>a b. \<not> cmp_gt cmp a b) ys" by (rule s)
  show "sorted_wrt (\<lambda>a b. \<not> cmp_gt cmp a b) (stable_sort cmp xs)"
    using c subset_refl by (rule sorted_stable_sort)
  fix a
  assume a: "a \<in> set xs"
  show "filter (cmp_eq cmp a) ys = filter (cmp_eq cmp a) (stable_sort cmp xs)"
    using st [OF a] stable_sort_stable [OF c a subset_refl] by simp
qed

text \<open>
  The order is fixed exactly when the sort field is empty or the comparator is
  consistent on the records, as it is when every record has a finite number in the sort
  field.
\<close>

lemma applySort_defined_iff:
  "(\<exists>ys. applySort rt xs (Some sf) sortOrder = Some ys) \<longleftrightarrow>
   sf = [] \<or> consistent (compareRecords rt sf sortOrder) xs"
  by (simp add: applySort_def Array_sort_def)

lemma compare_numbers:
  "getProp a sf = JNum (Fin p) \<Longrightarrow> getProp b sf = JNum (Fin q) \<Longrightarrow>
   compareRecords rt sf sortOrder a b = (if sortOrder = ''desc'' then Fin (q - p) else Fin (p - q))"
  by (simp add: compareRecords_def Let_def)

lemma consistent_numbers:
  assumes "\<And>r. r \<in> set xs \<Longrightarrow> \<exists>q. getProp r sf = JNum (Fin q)"
  shows "consistent (compareRecords rt sf sortOrder) xs"
proof -
  have "consistent3 (compareRecords rt sf sortOrder) a b c"
    if "a \<in> set xs" "b \<in> set xs" "c \<in> set xs" for a b c
  proof -
    from assms [OF that(1)] obtain p where p: "getProp a sf = JNum (Fin p)" ..
    from assms [OF that(2)] obtain q where q: "getProp b sf = JNum (Fin q)" ..
    from assms [OF that(3)] obtain r where r: "getProp c sf = JNum (Fin r)" ..
    from p q r show ?thesis
      by (cases "sortOrder = ''desc''")
        (simp_all add: consistent3_def cmp_eq_def cmp_lt_def cmp_gt_def compare_numbers)
  qed
  then show ?thesis
    by (simp add: consistent_def list_all_iff)
qed

lemma applySort_numbers_defined:
  "(\<And>r. r \<in> set xs \<Longrightarrow> \<exists>q. getProp r sf = JNum (Fin q)) \<Longrightarrow>
   \<exists>ys. applySort rt xs (Some sf) sortOrder = Some ys"
  unfolding applySort_defined_iff by (rule disjI2) (rule consistent_numbers)

subsection \<open>Stability of \<^verbatim>\<open>applySort\<close>\<close>

text \<open>
  Claim C7, as the code has it. Without a sort field the input is returned as it is.
  With a sort field that is empty, or whose comparator is consistent on the records,
  the sort returns a rearrangement of the input in which, for each record of the input,
  the records that compare equal to it are in their input order. This holds for the
  sort order \<^verbatim>\<open>desc\<close> as for any other.
\<close>

theorem applySort_stable:
  "sf = [] \<or> consistent (compareRecords rt sf sortOrder) xs \<Longrightarrow>
   applySort rt xs None sortOrder = Some xs \<and>
   (\<exists>ys. applySort rt xs (Some sf) sortOrder = Some ys \<and> mset ys = mset xs \<and>
      (\<forall>a\<in>set xs.
         filter (cmp_eq (compareRecords rt sf sortOrder) a) ys =
         filter (cmp_eq (compareRecords rt sf sortOrder) a) xs))"
proof
  show "applySort rt xs None sortOrder = Some xs"
    by (simp add: applySort_def)
next
  assume h: "sf = [] \<or> consistent (compareRecords rt sf sortOrder) xs"
  show "\<exists>ys. applySort rt xs (Some sf) sortOrder = Some ys \<and> mset ys = mset xs \<and>
      (\<forall>a\<in>set xs.
         filter (cmp_eq (compareRecords rt sf sortOrder) a) ys =
         filter (cmp_eq (compareRecords rt sf sortOrder) a) xs)"
  proof (cases "sf = []")
    case True
    then have "applySort rt xs (Some sf) sortOrder = Some xs"
      by (simp add: applySort_def)
    then show ?thesis by simp
  next
    case False
    with h have c: "consistent (compareRecords rt sf sortOrder) xs" by simp
    with False have "applySort rt xs (Some sf) sortOrder =
        Some (stable_sort (compareRecords rt sf sortOrder) xs)"
      by (simp add: applySort_def Array_sort_def)
    moreover have "mset (stable_sort (compareRecords rt sf sortOrder) xs) = mset xs"
      by (rule mset_stable_sort)
    moreover have "\<forall>a\<in>set xs.
        filter (cmp_eq (compareRecords rt sf sortOrder) a)
          (stable_sort (compareRecords rt sf sortOrder) xs) =
        filter (cmp_eq (compareRecords rt sf sortOrder) a) xs"
      using stable_sort_stable [OF c _ subset_refl] by simp
    ultimately show ?thesis by simp
  qed
qed

text \<open>
  The first scenario of the specification: by age, Amy stays before Cid in both
  directions.
\<close>

lemma sort_by_age_asc:
  "applySort ascii_runtime [bob, amy, cid] (Some ''age'') ''asc'' = Some [amy, cid, bob]"
  by (simp add: applySort_def Array_sort_def consistent_def consistent3_def cmp_eq_def
      cmp_lt_def cmp_gt_def compareRecords_def getProp_def bob_def amy_def cid_def person_def)

lemma sort_by_age_desc:
  "applySort ascii_runtime [bob, amy, cid] (Some ''age'') ''desc'' = Some [bob, amy, cid]"
  by (simp add: applySort_def Array_sort_def consistent_def consistent3_def cmp_eq_def
      cmp_lt_def cmp_gt_def compareRecords_def getProp_def bob_def amy_def cid_def person_def)

lemma consistent_by_age:
  "consistent (compareRecords ascii_runtime ''age'' sortOrder) [bob, amy, cid]"
  by (rule consistent_numbers) (auto simp add: getProp_def bob_def amy_def cid_def person_def)

theorem applySort_stable_witness:
  "(''age'' = [] \<or> consistent (compareRecords ascii_runtime ''age'' ''asc'') [bob, amy, cid]) \<and>
   applySort ascii_runtime [bob, amy, cid] (Some ''age'') ''asc'' = Some [amy, cid, bob] \<and>
   filter (cmp_eq (compareRecords ascii_runtime ''age'' ''asc'') amy) [amy, cid, bob] = [amy, cid] \<and>
   (''age'' = [] \<or> consistent (compareRecords ascii_runtime ''age'' ''desc'') [bob, amy, cid]) \<and>
   applySort ascii_runtime [bob, amy, cid] (Some ''age'') ''desc'' = Some [bob, amy, cid] \<and>
   filter (cmp_eq (compareRecords ascii_runtime ''age'' ''desc'') amy) [bob, amy, cid] = [amy, cid]"
proof -
  have a: "amy \<in> set [bob, amy, cid]" by simp
  have ca: "''age'' = [] \<or> consistent (compareRecords ascii_runtime ''age'' ''asc'') [bob, amy, cid]"
    using consistent_by_age by (rule disjI2)
  have cd: "''age'' = [] \<or> consistent (compareRecords ascii_runtime ''age'' ''desc'') [bob, amy, cid]"
    using consistent_by_age by (rule disjI2)
  have inp: "filter (cmp_eq (compareRecords ascii_runtime ''age'' sortOrder) amy) [bob, amy, cid] =
      [amy, cid]" for sortOrder
    by (simp add: cmp_eq_def compare_numbers [of _ _ 25 _ 25] compare_numbers [of _ _ 25 _ 30]
        getProp_def bob_def amy_def cid_def person_def)
  from applySort_stable [OF ca] obtain ys
    where ys: "applySort ascii_runtime [bob, amy, cid] (Some ''age'') ''asc'' = Some ys"
      and st: "\<forall>a\<in>set [bob, amy, cid].
        filter (cmp_eq (compareRecords ascii_runtime ''age'' ''asc'') a) ys =
        filter (cmp_eq (compareRecords ascii_runtime ''age'' ''asc'') a) [bob, amy, cid]"
    by (elim conjE exE)
  from ys have "ys = [amy, cid, bob]"
    by (simp add: sort_by_age_asc)
  with st a inp have asc: "filter (cmp_eq (compareRecords ascii_runtime ''age'' ''asc'') amy)
      [amy, cid, bob] = [amy, cid]"
    by (simp del: filter.simps)
  from applySort_stable [OF cd] obtain zs
    where zs: "applySort ascii_runtime [bob, amy, cid] (Some ''age'') ''desc'' = Some zs"
      and st': "\<forall>a\<in>set [bob, amy, cid].
        filter (cmp_eq (compareRecords ascii_runtime ''age'' ''desc'') a) zs =
        filter (cmp_eq (compareRecords ascii_runtime ''age'' ''desc'') a) [bob, amy, cid]"
    by (elim conjE exE)
  from zs have "zs = [bob, amy, cid]"
    by (simp add: sort_by_age_desc)
  with st' a inp have desc: "filter (cmp_eq (compareRecords ascii_runtime ''age'' ''desc'') amy)
      [bob, amy, cid] = [amy, cid]"
    by (simp del: filter.simps)
  from ca sort_by_age_asc asc cd sort_by_age_desc desc show ?thesis
    by (intro conjI)
qed

text \<open>
  A record whose value in the sort field is undefined makes every comparison that
  starts with it NaN.
\<close>

lemma compare_undefined:
  "getProp r sf = JUndefined \<Longrightarrow> compareRecords rt sf sortOrder r b = NaN"
  by (simp add: compareRecords_def Let_def)

text \<open>
  Stated for every sequence, C7 fails on a sequence with such a record: the comparator
  is not consistent, and the language leaves the order of the output open, also between
  Eli and Gus of the same age.
\<close>

theorem applySort_missing_field_counterexample:
  "applySort ascii_runtime
     [person ''Ann'' 6, person ''Ben'' 6, person ''Cal'' 6, person ''Dan'' 7, dee,
      person ''Eli'' 5, person ''Fay'' 9, person ''Gus'' 5]
     (Some ''age'') ''asc'' = None"
proof -
  have "compareRecords ascii_runtime ''age'' ''asc'' dee dee = NaN"
    by (rule compare_undefined) (simp add: getProp_def dee_def objectPrototype_def)
  then have "\<not> consistent (compareRecords ascii_runtime ''age'' ''asc'')
     [person ''Ann'' 6, person ''Ben'' 6, person ''Cal'' 6, person ''Dan'' 7, dee,
      person ''Eli'' 5, person ''Fay'' 9, person ''Gus'' 5]"
    by (intro consistent_NaN [of dee _ _ dee]) simp_all
  then show ?thesis
    by (simp add: applySort_def Array_sort_def)
qed

subsection \<open>Records without the sort field\<close>

text \<open>
  Claim C8, as the code has it. The comparator does not normalize a missing value: with
  a record whose value in the sort field is undefined as its first argument the
  comparison is NaN, in both directions, and sorting a sequence that contains such a
  record has no order fixed by the language.
\<close>

theorem missing_sort_field_unordered:
  "getProp r sf = JUndefined \<Longrightarrow>
   compareRecords rt sf sortOrder r b = NaN \<and>
   (sf \<noteq> [] \<and> r \<in> set xs \<longrightarrow> applySort rt xs (Some sf) sortOrder = None)"
proof (intro conjI impI)
  assume u: "getProp r sf = JUndefined"
  show "compareRecords rt sf sortOrder r b = NaN"
    using u by (rule compare_undefined)
  assume "sf \<noteq> [] \<and> r \<in> set xs"
  then have sf: "sf \<noteq> []" and r: "r \<in> set xs" by simp_all
  have "compareRecords rt sf sortOrder r r = NaN"
    using u by (rule compare_undefined)
  with r have "\<not> consistent (compareRecords rt sf sortOrder) xs"
    by (intro consistent_NaN [of r xs _ r])
  with sf show "applySort rt xs (Some sf) sortOrder = None"
    by (simp add: applySort_def Array_sort_def)
qed

theorem missing_sort_field_unordered_witness:
  "getProp dee ''age'' = JUndefined \<and>
   compareRecords ascii_runtime ''age'' ''desc'' dee amy = NaN \<and>
   applySort ascii_runtime [bob, dee, amy] (Some ''age'') ''desc'' = None"
proof -
  have u: "getProp dee ''age'' = JUndefined"
    by (simp add: getProp_def dee_def objectPrototype_def)
  have h: "''age'' \<noteq> [] \<and> dee \<in> set [bob, dee, amy]" by simp
  from missing_sort_field_unordered [OF u, of ascii_runtime "''desc''" amy "[bob, dee, amy]"] h u
  show ?thesis by blast
qed

text \<open>
  A missing age is neither below nor above a present one: both comparisons of Dee with
  Bob are NaN, and the comparator is not consistent on the two records.
\<close>

theorem missing_sort_field_counterexample:
  "compareRecords ascii_runtime ''age'' ''asc'' dee bob = NaN \<and>
   compareRecords ascii_runtime ''age'' ''asc'' bob dee = NaN \<and>
   \<not> consistent (compareRecords ascii_runtime ''age'' ''asc'') [dee, bob]"
proof -
  have 1: "compareRecords ascii_runtime ''age'' ''asc'' dee bob = NaN"
    by (simp add: compareRecords_def getProp_def dee_def bob_def person_def objectPrototype_def)
  have 2: "compareRecords ascii_runtime ''age'' ''asc'' bob dee = NaN"
    by (simp add: compareRecords_def getProp_def dee_def bob_def person_def objectPrototype_def)
  have "\<not> consistent (compareRecords ascii_runtime ''age'' ''asc'') [dee, bob]"
    using 1 by (intro consistent_NaN [of dee _ _ bob]) simp_all
  with 1 2 show ?thesis by (intro conjI)
qed

section \<open>The pipeline\<close>

text \<open>
  The total that the handler returns counts the records after filtering and before
  pagination.
\<close>

lemma getRecords_total:
  "getRecords rt employees filters logic sortField sortOrder page limit = Some res \<Longrightarrow>
   total res = int (length (applyFilters rt employees filters logic))"
proof -
  assume g: "getRecords rt employees filters logic sortField sortOrder page limit = Some res"
  then obtain ys where s: "applySort rt (applyFilters rt employees filters logic) sortField sortOrder = Some ys"
    and res: "res = paginate ys page limit"
    by (auto simp add: getRecords_def split: option.splits)
  have "length ys = length (applyFilters rt employees filters logic)"
    using applySort_mset [OF s] by (rule mset_eq_length)
  with res show ?thesis
    by (simp add: paginate_def Let_def)
qed

text \<open>
  The first scenario of the specification: the filter \<^verbatim>\<open>age >= 25\<close> keeps the three
  records, sorting by age puts Amy and Cid before Bob, and the two pages of size 2 are
  Amy and Cid with more to come, then Bob with nothing more.
\<close>

lemma scenario_filter:
  "applyFilters ascii_runtime [bob, amy, cid] [ageAtLeast25] ''AND'' = [bob, amy, cid]"
proof -
  have "evalCondition ascii_runtime bob ageAtLeast25" by code_simp
  moreover have "evalCondition ascii_runtime amy ageAtLeast25" by code_simp
  moreover have "evalCondition ascii_runtime cid ageAtLeast25" by code_simp
  ultimately show ?thesis
    by (simp add: applyFilters_def matches_def)
qed

lemma scenario_page0:
  "getRecords ascii_runtime [bob, amy, cid] [ageAtLeast25] ''AND'' (Some ''age'') ''asc'' 0 2 =
     Some \<lparr> data = [amy, cid], total = 3, hasMore = True \<rparr>"
  by (simp add: getRecords_def scenario_filter sort_by_age_asc paginate_def slice_def)

lemma scenario_page1:
  "getRecords ascii_runtime [bob, amy, cid] [ageAtLeast25] ''AND'' (Some ''age'') ''asc'' 1 2 =
     Some \<lparr> data = [bob], total = 3, hasMore = False \<rparr>"
  by (simp add: getRecords_def scenario_filter sort_by_age_asc paginate_def slice_def)

end
